theory Spec2Isabelle
  imports Complex_Main
begin

section \<open>Python values\<close>

text \<open>
  A Python \<^verbatim>\<open>str\<close> is a sequence of Unicode code points; it is modelled as the list of
  their numbers. ASCII literals of the source are written with \<open>of_ascii\<close>, the two
  Turkish letters that occur in the literals by their code points.
\<close>

type_synonym pystr = "nat list"

definition of_ascii :: "string \<Rightarrow> pystr" where
  "of_ascii s = map of_char s"

datatype py_error =
    ValueError | TypeError | AttributeError | KeyError | IndexError | ZeroDivisionError
  | NoSuchElementException | TimeoutException

subsection \<open>Floats\<close>

text \<open>
  A Python \<^verbatim>\<open>float\<close> is an IEEE-754 binary64 number. A finite one is modelled by the
  rational it denotes; every operation rounds its exact result to the nearest
  representable value, ties to even, and overflows to an infinity. The sign of zero is
  not modelled (Python's comparisons cannot tell \<^verbatim>\<open>-0.0\<close> from \<^verbatim>\<open>0.0\<close>).
\<close>

datatype pyfloat = Finite rat | PosInf | NegInf | NaN

fun bitlen :: "nat \<Rightarrow> nat" where
  "bitlen n = (if n = 0 then 0 else Suc (bitlen (n div 2)))"

declare bitlen.simps [simp del]

definition pow2 :: "int \<Rightarrow> rat" where
  "pow2 e = (if 0 \<le> e then 2 ^ nat e else 1 / 2 ^ nat (- e))"

definition pow10 :: "int \<Rightarrow> rat" where
  "pow10 e = (if 0 \<le> e then 10 ^ nat e else 1 / 10 ^ nat (- e))"

text \<open>The binary exponent of a positive rational: \<open>2 ^ ilog2 q \<le> q < 2 ^ (ilog2 q + 1)\<close>.\<close>

definition ilog2 :: "rat \<Rightarrow> int" where
  "ilog2 q = (if 1 \<le> q then int (bitlen (nat \<lfloor>q\<rfloor>)) - 1
              else - int (bitlen (nat (\<lceil>1 / q\<rceil> - 1))))"

definition round_half_even :: "rat \<Rightarrow> int" where
  "round_half_even q =
     (let f = \<lfloor>q\<rfloor>; d = q - of_int f in
      if d < 1 / 2 then f
      else if 1 / 2 < d then f + 1
      else if even f then f else f + 1)"

text \<open>
  Rounding to binary64: 53 significant bits, the least exponent of a unit in the last
  place is \<open>- 1074\<close> (subnormals), and a rounded magnitude of \<open>2 ^ 1024\<close> is infinite.
\<close>

definition round_double :: "rat \<Rightarrow> pyfloat" where
  "round_double q =
     (if q = 0 then Finite 0
      else let a = \<bar>q\<bar>;
               p = max (ilog2 a) (- 1022) - 52;
               v = of_int (round_half_even (a / pow2 p)) * pow2 p
           in if 2 ^ 1024 \<le> v then (if 0 < q then PosInf else NegInf)
              else Finite (if 0 < q then v else - v))"

fun fadd :: "pyfloat \<Rightarrow> pyfloat \<Rightarrow> pyfloat" where
  "fadd (Finite a) (Finite b) = round_double (a + b)"
| "fadd NaN _ = NaN"
| "fadd _ NaN = NaN"
| "fadd PosInf NegInf = NaN"
| "fadd NegInf PosInf = NaN"
| "fadd PosInf _ = PosInf"
| "fadd NegInf _ = NegInf"
| "fadd _ PosInf = PosInf"
| "fadd _ NegInf = NegInf"

fun fmul :: "pyfloat \<Rightarrow> pyfloat \<Rightarrow> pyfloat" where
  "fmul (Finite a) (Finite b) = round_double (a * b)"
| "fmul NaN _ = NaN"
| "fmul _ NaN = NaN"
| "fmul (Finite a) PosInf = (if a = 0 then NaN else if 0 < a then PosInf else NegInf)"
| "fmul (Finite a) NegInf = (if a = 0 then NaN else if 0 < a then NegInf else PosInf)"
| "fmul PosInf (Finite b) = (if b = 0 then NaN else if 0 < b then PosInf else NegInf)"
| "fmul NegInf (Finite b) = (if b = 0 then NaN else if 0 < b then NegInf else PosInf)"
| "fmul PosInf PosInf = PosInf"
| "fmul NegInf NegInf = PosInf"
| "fmul PosInf NegInf = NegInf"
| "fmul NegInf PosInf = NegInf"

text \<open>
  Python's \<^verbatim>\<open>/\<close> on floats raises \<^verbatim>\<open>ZeroDivisionError\<close> for a zero divisor and is
  IEEE division otherwise.
\<close>

fun fdiv :: "pyfloat \<Rightarrow> pyfloat \<Rightarrow> py_error + pyfloat" where
  "fdiv NaN (Finite b) = (if b = 0 then Inl ZeroDivisionError else Inr NaN)"
| "fdiv (Finite a) (Finite b) =
     (if b = 0 then Inl ZeroDivisionError else Inr (round_double (a / b)))"
| "fdiv PosInf (Finite b) =
     (if b = 0 then Inl ZeroDivisionError else Inr (if 0 < b then PosInf else NegInf))"
| "fdiv NegInf (Finite b) =
     (if b = 0 then Inl ZeroDivisionError else Inr (if 0 < b then NegInf else PosInf))"
| "fdiv _ NaN = Inr NaN"
| "fdiv NaN _ = Inr NaN"
| "fdiv (Finite a) _ = Inr (Finite 0)"
| "fdiv _ _ = Inr NaN"

text \<open>Comparisons: every comparison with \<^verbatim>\<open>nan\<close> is false.\<close>

fun flt :: "pyfloat \<Rightarrow> pyfloat \<Rightarrow> bool" where
  "flt NaN _ = False"
| "flt _ NaN = False"
| "flt (Finite a) (Finite b) = (a < b)"
| "flt _ NegInf = False"
| "flt PosInf _ = False"
| "flt NegInf _ = True"
| "flt _ PosInf = True"

fun fle :: "pyfloat \<Rightarrow> pyfloat \<Rightarrow> bool" where
  "fle NaN _ = False"
| "fle _ NaN = False"
| "fle (Finite a) (Finite b) = (a \<le> b)"
| "fle NegInf _ = True"
| "fle _ PosInf = True"
| "fle _ NegInf = False"
| "fle PosInf _ = False"

definition is_finite :: "pyfloat \<Rightarrow> bool" where
  "is_finite f = (case f of Finite _ \<Rightarrow> True | _ \<Rightarrow> False)"

text \<open>The float a literal of the source denotes, and the float of an \<^verbatim>\<open>int\<close>.\<close>

definition float_lit :: "rat \<Rightarrow> pyfloat" where
  "float_lit q = round_double q"

definition float_of_int :: "int \<Rightarrow> pyfloat" where
  "float_of_int n = round_double (of_int n)"

subsection \<open>String methods\<close>

text \<open>\<^verbatim>\<open>str.isspace\<close> of one character, which is what \<^verbatim>\<open>str.strip()\<close> removes.\<close>

definition py_isspace :: "nat \<Rightarrow> bool" where
  "py_isspace c \<longleftrightarrow>
     (9 \<le> c \<and> c \<le> 13) \<or> (28 \<le> c \<and> c \<le> 32) \<or> c = 133 \<or> c = 160 \<or> c = 5760 \<or>
     (8192 \<le> c \<and> c \<le> 8202) \<or> c = 8232 \<or> c = 8233 \<or> c = 8239 \<or> c = 8287 \<or> c = 12288"

definition py_strip :: "pystr \<Rightarrow> pystr" where
  "py_strip s = rev (dropWhile py_isspace (rev (dropWhile py_isspace s)))"

text \<open>
  \<^verbatim>\<open>s.replace(old, new)\<close> for a non-empty \<open>old\<close> (the source only passes \<^verbatim>\<open>" TL"\<close>
  and \<^verbatim>\<open>","\<close>): occurrences are replaced from the left, without overlap.
\<close>

fun py_replace :: "pystr \<Rightarrow> pystr \<Rightarrow> pystr \<Rightarrow> pystr" where
  "py_replace old new [] = []"
| "py_replace old new (c # cs) =
     (if old \<noteq> [] \<and> take (length old) (c # cs) = old
      then new @ py_replace old new (drop (length old) (c # cs))
      else c # py_replace old new cs)"

text \<open>\<^verbatim>\<open>s.split(sep)\<close> for a separator of one character.\<close>

fun py_split :: "nat \<Rightarrow> pystr \<Rightarrow> pystr list" where
  "py_split sep [] = [[]]"
| "py_split sep (c # cs) =
     (if c = sep then [] # py_split sep cs
      else (case py_split sep cs of [] \<Rightarrow> [[c]] | p # ps \<Rightarrow> (c # p) # ps))"

text \<open>\<^verbatim>\<open>sub in s\<close>.\<close>

fun py_in :: "pystr \<Rightarrow> pystr \<Rightarrow> bool" where
  "py_in sub [] = (sub = [])"
| "py_in sub (c # cs) = (take (length sub) (c # cs) = sub \<or> py_in sub cs)"

subsection \<open>\<^verbatim>\<open>float(str)\<close>\<close>

text \<open>
  The code points of general category Nd come in runs of ten, one per script; the list
  holds the code point of each run's zero (Unicode 14).
\<close>

definition nd_zeros :: "nat list" where
  "nd_zeros =
     [48, 1632, 1776, 1984, 2406, 2534, 2662, 2790, 2918, 3046, 3174, 3302, 3430, 3558,
      3664, 3792, 3872, 4160, 4240, 6112, 6160, 6470, 6608, 6784, 6800, 6992, 7088, 7232,
      7248, 42528, 43216, 43264, 43472, 43504, 43600, 44016, 65296, 66720, 68912, 69734,
      69872, 69942, 70096, 70384, 70736, 70864, 71248, 71360, 71472, 71904, 72016, 72784,
      73040, 73120, 92768, 92864, 93008, 120782, 120792, 120802, 120812, 120822, 123200,
      123632, 125264, 130032]"

definition py_decimal :: "nat \<Rightarrow> nat option" where
  "py_decimal c =
     (case filter (\<lambda>z. z \<le> c \<and> c < z + 10) nd_zeros of
        [] \<Rightarrow> None
      | z # _ \<Rightarrow> Some (c - z))"

text \<open>
  \<^verbatim>\<open>float\<close> first maps every non-ASCII space to a blank, every non-ASCII decimal digit
  to its ASCII digit and any other non-ASCII character to \<^verbatim>\<open>?\<close>, which no number
  contains.
\<close>

definition float_ascii :: "nat \<Rightarrow> nat" where
  "float_ascii c =
     (if c < 128 then c
      else if py_isspace c then 32
      else case py_decimal c of Some d \<Rightarrow> 48 + d | None \<Rightarrow> 63)"

definition c_isspace :: "nat \<Rightarrow> bool" where
  "c_isspace c \<longleftrightarrow> (9 \<le> c \<and> c \<le> 13) \<or> c = 32"

definition c_strip :: "pystr \<Rightarrow> pystr" where
  "c_strip s = rev (dropWhile c_isspace (rev (dropWhile c_isspace s)))"

definition is_digit :: "nat \<Rightarrow> bool" where
  "is_digit c \<longleftrightarrow> 48 \<le> c \<and> c \<le> 57"

text \<open>
  An underscore is accepted between two digits and nowhere else; accepted underscores
  are dropped. The first argument is the previous character.
\<close>

fun strip_underscores :: "nat \<Rightarrow> pystr \<Rightarrow> pystr option" where
  "strip_underscores prev [] = (if prev = 95 then None else Some [])"
| "strip_underscores prev (c # cs) =
     (if c = 95 then (if is_digit prev then strip_underscores c cs else None)
      else if prev = 95 \<and> \<not> is_digit c then None
      else map_option ((#) c) (strip_underscores c cs))"

definition digits_val :: "pystr \<Rightarrow> nat" where
  "digits_val ds = foldl (\<lambda>a c. 10 * a + (c - 48)) 0 ds"

definition ascii_lower :: "nat \<Rightarrow> nat" where
  "ascii_lower c = (if 65 \<le> c \<and> c \<le> 90 then c + 32 else c)"

text \<open>An optional sign: whether it is a minus, and the rest.\<close>

definition split_sign :: "pystr \<Rightarrow> bool \<times> pystr" where
  "split_sign s =
     (case s of
        [] \<Rightarrow> (False, [])
      | c # cs \<Rightarrow> if c = 45 then (True, cs) else if c = 43 then (False, cs) else (False, s))"

definition parse_exponent :: "pystr \<Rightarrow> int option" where
  "parse_exponent s =
     (case s of
        [] \<Rightarrow> Some 0
      | c # cs \<Rightarrow>
          if c = 101 \<or> c = 69 then
            (let (neg, ds) = split_sign cs in
             if ds \<noteq> [] \<and> list_all is_digit ds
             then Some (if neg then - int (digits_val ds) else int (digits_val ds))
             else None)
          else None)"

text \<open>
  \<^verbatim>\<open>digits [. digits] [e [sign] digits]\<close> or \<^verbatim>\<open>. digits [e ...]\<close>, the whole string; the
  value is exact.
\<close>

definition parse_decimal :: "pystr \<Rightarrow> rat option" where
  "parse_decimal s =
     (let ip = takeWhile is_digit s;
          r1 = dropWhile is_digit s;
          (fp, r2) = (case r1 of
                        [] \<Rightarrow> ([], [])
                      | c # cs \<Rightarrow> if c = 46 then (takeWhile is_digit cs, dropWhile is_digit cs)
                                  else ([], r1))
      in if ip = [] \<and> fp = [] then None
         else case parse_exponent r2 of
                None \<Rightarrow> None
              | Some ex \<Rightarrow> Some (of_nat (digits_val (ip @ fp)) * pow10 (ex - int (length fp))))"

text \<open>\<^verbatim>\<open>float(s)\<close> for a string \<open>s\<close>: the only exception it raises is \<^verbatim>\<open>ValueError\<close>.\<close>

definition py_float :: "pystr \<Rightarrow> py_error + pyfloat" where
  "py_float s =
     (case strip_underscores 0 (c_strip (map float_ascii s)) of
        None \<Rightarrow> Inl ValueError
      | Some t \<Rightarrow>
          (let (neg, u) = split_sign t; l = map ascii_lower u in
           if l = of_ascii ''inf'' \<or> l = of_ascii ''infinity''
           then Inr (if neg then NegInf else PosInf)
           else if l = of_ascii ''nan'' then Inr NaN
           else case parse_decimal u of
                  None \<Rightarrow> Inl ValueError
                | Some q \<Rightarrow> Inr (round_double (if neg then - q else q))))"

subsection \<open>Dictionaries\<close>

text \<open>
  The values a hotel dictionary holds: the spider stores strings and \<^verbatim>\<open>None\<close>, the
  pipeline adds the float \<^verbatim>\<open>final_score\<close>.
\<close>

datatype pyval = PNone | PStr pystr | PFloat pyfloat

type_synonym hotel = "string \<rightharpoonup> pyval"

text \<open>\<^verbatim>\<open>d.get(key, default)\<close>.\<close>

definition dict_get :: "hotel \<Rightarrow> string \<Rightarrow> pyval \<Rightarrow> pyval" where
  "dict_get d k dflt = (case d k of None \<Rightarrow> dflt | Some v \<Rightarrow> v)"

text \<open>Truth value of an object: \<^verbatim>\<open>None\<close>, the empty string and zero are false.\<close>

definition truthy :: "pyval \<Rightarrow> bool" where
  "truthy v = (case v of PNone \<Rightarrow> False | PStr s \<Rightarrow> s \<noteq> [] | PFloat f \<Rightarrow> f \<noteq> Finite 0)"

section \<open>scoring.py\<close>

text \<open>
  The normalisation steps of \<^verbatim>\<open>parse_price\<close>, up to the string handed to \<^verbatim>\<open>float\<close>:
  remove \<^verbatim>\<open>" TL"\<close> and strip, turn commas into dots, split at the dots, and put one dot
  before the last part.
\<close>

definition clean_price :: "pystr \<Rightarrow> py_error + pystr" where
  "clean_price price_str =
     (let price_str1 = py_strip (py_replace (of_ascii '' TL'') [] price_str);
          price_str2 = py_replace (of_ascii '','') (of_ascii ''.'') price_str1;
          parts = py_split 46 price_str2
      in case parts of
           [] \<Rightarrow> Inl IndexError
         | p # ps \<Rightarrow>
             if 1 < length parts
             then Inr (concat (butlast parts) @ of_ascii ''.'' @ last parts)
             else Inr p)"

definition parse_price :: "pyval \<Rightarrow> py_error + pyfloat" where
  "parse_price price_str =
     (if \<not> truthy price_str then Inr (Finite 0)
      else case price_str of
        PStr s \<Rightarrow>
          (case clean_price s of
             Inl e \<Rightarrow> Inl e
           | Inr cleaned_str \<Rightarrow>
               (case py_float cleaned_str of
                  Inr f \<Rightarrow> Inr f
                | Inl ValueError \<Rightarrow> Inr (Finite 0)
                | Inl e \<Rightarrow> Inl e))
      | _ \<Rightarrow> Inl AttributeError)"

text \<open>
  \<^verbatim>\<open>str.lower()\<close> on Basic Latin, the Latin-1 Supplement and Latin Extended-A, which
  hold the Turkish alphabet; a code point above U+017F is left as it is.
\<close>

definition lower_char :: "nat \<Rightarrow> pystr" where
  "lower_char c =
     (if 65 \<le> c \<and> c \<le> 90 then [c + 32]
      else if 192 \<le> c \<and> c \<le> 222 \<and> c \<noteq> 215 then [c + 32]
      else if c = 304 then [105, 775]
      else if (256 \<le> c \<and> c \<le> 311 \<or> 330 \<le> c \<and> c \<le> 375) \<and> even c then [c + 1]
      else if (313 \<le> c \<and> c \<le> 328 \<or> 377 \<le> c \<and> c \<le> 382) \<and> odd c then [c + 1]
      else if c = 376 then [255]
      else [c])"

definition py_lower :: "pystr \<Rightarrow> pystr" where
  "py_lower s = concat (map lower_char s)"

text \<open>The phrases \<^verbatim>\<open>compute_base_score\<close> looks for; 351 is U+015F, 305 is U+0131.\<close>

definition risksiz :: pystr where
  "risksiz = of_ascii ''Risksiz rezervasyon''"

definition ultra_her_sey_dahil :: pystr where
  "ultra_her_sey_dahil = of_ascii ''ultra her '' @ [351] @ of_ascii ''ey dahil''"

definition her_sey_dahil :: pystr where
  "her_sey_dahil = of_ascii ''her '' @ [351] @ of_ascii ''ey dahil''"

definition yarim_pansiyon :: pystr where
  "yarim_pansiyon = of_ascii ''yar'' @ [305] @ of_ascii ''m pansiyon''"

definition oda_kahvalti :: pystr where
  "oda_kahvalti = of_ascii ''oda kahvalt'' @ [305]"

definition sadece_oda :: pystr where
  "sadece_oda = of_ascii ''sadece oda''"

text \<open>Step 1: \<^verbatim>\<open>"Risksiz rezervasyon" in cancel_policy\<close>; \<^verbatim>\<open>in\<close> needs a string.\<close>

definition score_cancel_policy :: "pyval \<Rightarrow> pyfloat \<Rightarrow> py_error + pyfloat" where
  "score_cancel_policy cancel_policy base_score =
     (case cancel_policy of
        PStr s \<Rightarrow> Inr (if py_in risksiz s then fadd base_score (float_lit 1) else base_score)
      | _ \<Rightarrow> Inl TypeError)"

text \<open>Step 2: \<^verbatim>\<open>hotel.get("recomended_hotel") is not None\<close>.\<close>

definition score_recommended :: "pyval \<Rightarrow> pyfloat \<Rightarrow> pyfloat" where
  "score_recommended recomended_hotel base_score =
     (if recomended_hotel \<noteq> PNone then fadd base_score (float_lit 1) else base_score)"

text \<open>Step 3: \<^verbatim>\<open>0.05 * len(features_list)\<close> for a true \<^verbatim>\<open>features_str\<close>.\<close>

definition score_features :: "pyval \<Rightarrow> pyfloat \<Rightarrow> py_error + pyfloat" where
  "score_features features_str base_score =
     (if truthy features_str then
        (case features_str of
           PStr s \<Rightarrow>
             (let features_list = map py_strip (py_split 44 s)
              in Inr (fadd base_score
                        (fmul (float_lit (5 / 100)) (float_of_int (int (length features_list))))))
         | _ \<Rightarrow> Inl AttributeError)
      else Inr base_score)"

text \<open>Step 4: the \<^verbatim>\<open>if\<close>/\<^verbatim>\<open>elif\<close> chain on the stripped, lower-cased category.\<close>

definition score_accommodation :: "pyval \<Rightarrow> pyfloat \<Rightarrow> py_error + pyfloat" where
  "score_accommodation accommodation_types base_score =
     (case accommodation_types of
        PStr s \<Rightarrow>
          (let accom = py_lower (py_strip s)
           in Inr (if py_in ultra_her_sey_dahil accom then fadd base_score (float_lit 2)
                   else if py_in her_sey_dahil accom then fadd base_score (float_lit (15 / 10))
                   else if py_in yarim_pansiyon accom then fadd base_score (float_lit 1)
                   else if py_in oda_kahvalti accom then fadd base_score (float_lit (5 / 10))
                   else if py_in sadece_oda accom then fadd base_score (float_lit (3 / 10))
                   else base_score))
      | _ \<Rightarrow> Inl AttributeError)"

definition compute_base_score :: "hotel \<Rightarrow> py_error + pyfloat" where
  "compute_base_score hotel =
     (case score_cancel_policy (dict_get hotel ''cancel_policy'' (PStr [])) (Finite 0) of
        Inl e \<Rightarrow> Inl e
      | Inr s1 \<Rightarrow>
          (case score_features (dict_get hotel ''hotel_features'' (PStr []))
                  (score_recommended (dict_get hotel ''recomended_hotel'' PNone) s1) of
             Inl e \<Rightarrow> Inl e
           | Inr s3 \<Rightarrow>
               score_accommodation (dict_get hotel ''accommodation_types'' (PStr [])) s3))"

definition compute_final_score :: "hotel \<Rightarrow> py_error + pyfloat" where
  "compute_final_score hotel =
     (case parse_price (dict_get hotel ''price'' (PStr [])) of
        Inl e \<Rightarrow> Inl e
      | Inr price_val \<Rightarrow>
          (case compute_base_score hotel of
             Inl e \<Rightarrow> Inl e
           | Inr base_score \<Rightarrow>
               fdiv base_score
                 (if fle price_val (float_of_int 0) then float_of_int 1 else price_val)))"

text \<open>
  Well-formed Turkish prices, to state what \<^verbatim>\<open>parse_price\<close> returns on them: groups of
  digits separated by dots, a comma, the fraction digits and the suffix \<^verbatim>\<open>" TL"\<close>.
\<close>

definition digit_string :: "pystr \<Rightarrow> bool" where
  "digit_string s \<longleftrightarrow> s \<noteq> [] \<and> list_all is_digit s"

fun join_dots :: "pystr list \<Rightarrow> pystr" where
  "join_dots [] = []"
| "join_dots [g] = g"
| "join_dots (g # gs) = g @ of_ascii ''.'' @ join_dots gs"

definition turkish_price :: "pystr list \<Rightarrow> pystr \<Rightarrow> pystr" where
  "turkish_price gs fr = join_dots gs @ of_ascii '','' @ fr @ of_ascii '' TL''"

text \<open>
  The contributions to the base score as the specification lists them. \<open>None\<close> is a
  condition that does not hold: nothing is added to the running score.
\<close>

definition add_points :: "pyfloat option \<Rightarrow> pyfloat \<Rightarrow> pyfloat" where
  "add_points c acc = (case c of None \<Rightarrow> acc | Some x \<Rightarrow> fadd acc x)"

definition cancel_points :: "pystr \<Rightarrow> pyfloat option" where
  "cancel_points cancel_policy =
     (if py_in risksiz cancel_policy then Some (float_lit 1) else None)"

definition recommended_points :: "pyval \<Rightarrow> pyfloat option" where
  "recommended_points marker = (if marker = PNone then None else Some (float_lit 1))"

definition feature_points :: "pystr \<Rightarrow> pyfloat option" where
  "feature_points features =
     (if features = [] then None
      else Some (fmul (float_lit (5 / 100)) (float_of_int (int (count_list features 44 + 1)))))"

definition category_points :: "pystr \<Rightarrow> pyfloat option" where
  "category_points accom =
     (if py_in ultra_her_sey_dahil accom then Some (float_lit 2)
      else if py_in her_sey_dahil accom then Some (float_lit (15 / 10))
      else if py_in yarim_pansiyon accom then Some (float_lit 1)
      else if py_in oda_kahvalti accom then Some (float_lit (5 / 10))
      else if py_in sadece_oda accom then Some (float_lit (3 / 10))
      else None)"

text \<open>A text field of a hotel: the string stored under the key, empty when the key is absent.\<close>

definition str_field :: "hotel \<Rightarrow> string \<Rightarrow> pystr option" where
  "str_field h k = (case dict_get h k (PStr []) of PStr s \<Rightarrow> Some s | _ \<Rightarrow> None)"

text \<open>The record of the specification's example; 350 is U+015E.\<close>

definition example_hotel :: hotel where
  "example_hotel =
     [''accommodation_types'' \<mapsto> PStr (of_ascii ''Ultra Her '' @ [350] @ of_ascii ''ey Dahil''),
      ''hotel_features'' \<mapsto> PStr (of_ascii ''Wifi, Pool''),
      ''cancel_policy'' \<mapsto> PStr (of_ascii ''Risksiz rezervasyon dahil''),
      ''recomended_hotel'' \<mapsto> PStr (of_ascii ''x'')]"

text \<open>The example record with a price text that \<^verbatim>\<open>float\<close> reads as not-a-number.\<close>

definition nan_price_hotel :: hotel where
  "nan_price_hotel = example_hotel(''price'' \<mapsto> PStr (of_ascii ''nan TL''))"

section \<open>jolly_selenium.py\<close>

subsection \<open>The month-paging loop of \<^verbatim>\<open>select_dates\<close>\<close>

text \<open>
  The browser is the environment of the loop. What the loop observes of the date picker
  after \<open>n\<close> clicks on the next arrow: the result of the two header lookups
  (\<^verbatim>\<open>find_element(...).text\<close>) and of waiting for the arrow and clicking it.
\<close>

record calendar =
  month_header :: "py_error + pystr"
  year_header :: "py_error + pystr"
  next_arrow :: "py_error + unit"

text \<open>
  \<^verbatim>\<open>while True\<close>: read both headers, leave when both equal the targets, otherwise click
  the arrow. The result is the number of clicks made, or the exception a lookup raised;
  \<open>None\<close> is a loop that never ends.
\<close>

partial_function (option) page_months ::
  "(nat \<Rightarrow> calendar) \<Rightarrow> pystr \<Rightarrow> pystr \<Rightarrow> nat \<Rightarrow> (py_error + nat) option" where
  "page_months cal target_month target_year n =
     (case month_header (cal n) of
        Inl e \<Rightarrow> Some (Inl e)
      | Inr current_month \<Rightarrow>
          (case year_header (cal n) of
             Inl e \<Rightarrow> Some (Inl e)
           | Inr current_year \<Rightarrow>
               if current_month = target_month \<and> current_year = target_year then Some (Inr n)
               else (case next_arrow (cal n) of
                       Inl e \<Rightarrow> Some (Inl e)
                     | Inr _ \<Rightarrow> page_months cal target_month target_year (n + 1))))"

text \<open>A calendar state that shows a header other than the target and whose arrow works.\<close>

definition advances :: "calendar \<Rightarrow> pystr \<Rightarrow> pystr \<Rightarrow> bool" where
  "advances c target_month target_year =
     (case (month_header c, year_header c, next_arrow c) of
        (Inr m, Inr y, Inr _) \<Rightarrow> \<not> (m = target_month \<and> y = target_year)
      | _ \<Rightarrow> False)"

definition displays :: "calendar \<Rightarrow> pystr \<Rightarrow> pystr \<Rightarrow> bool" where
  "displays c target_month target_year =
     (month_header c = Inr target_month \<and> year_header c = Inr target_year)"

subsection \<open>\<^verbatim>\<open>scroll_and_click_until_all_displayed\<close>\<close>

text \<open>
  What the loader observes of the result page after \<open>n\<close> clicks on the load-more button:
  whether the status element is found, whether it is in the viewport once the window
  has been scrolled down by a number of pixels, its text, and the result of finding and
  clicking the button.
\<close>

record result_page =
  status_lookup :: "py_error + unit"
  is_in_viewport :: "nat \<Rightarrow> bool"
  status_text :: pystr
  next_button :: "py_error + unit"

text \<open>The \<^verbatim>\<open>while\<close> loop of \<^verbatim>\<open>scroll_until_element_visible\<close>; it returns \<^verbatim>\<open>scroll_count\<close>.\<close>

function scroll_loop :: "(nat \<Rightarrow> bool) \<Rightarrow> nat \<Rightarrow> nat \<Rightarrow> nat \<Rightarrow> nat" where
  "scroll_loop in_view scroll_step max_scrolls scroll_count =
     (if \<not> in_view (scroll_step * scroll_count) \<and> scroll_count < max_scrolls
      then scroll_loop in_view scroll_step max_scrolls (scroll_count + 1)
      else scroll_count)"
  by pat_completeness auto
termination
  by (relation "measure (\<lambda>(in_view, scroll_step, max_scrolls, scroll_count).
        max_scrolls - scroll_count)") auto

declare scroll_loop.simps [simp del]

text \<open>
  The element (here: its text) once it is visible, \<open>None\<close> when it is not found (any
  exception of the lookup is caught) or not visible after the last scroll.
\<close>

definition scroll_until_element_visible :: "result_page \<Rightarrow> nat \<Rightarrow> nat \<Rightarrow> pystr option" where
  "scroll_until_element_visible page scroll_step max_scrolls =
     (case status_lookup page of
        Inl e \<Rightarrow> None
      | Inr _ \<Rightarrow>
          (let scroll_count = scroll_loop (is_in_viewport page) scroll_step max_scrolls 0
           in if is_in_viewport page (scroll_step * scroll_count)
              then Some (status_text page) else None))"

datatype halt = AllDisplayed | StatusNotVisible | ClickFailed

text \<open>The phrase that ends the loading; 305 is U+0131, 246 U+00F6, 252 U+00FC.\<close>

definition completion_phrase :: pystr where
  "completion_phrase =
     of_ascii ''tamam'' @ [305] @ of_ascii ''n'' @ [305] @ of_ascii '' g'' @ [246] @
     of_ascii ''r'' @ [252] @ of_ascii ''nt'' @ [252] @ of_ascii ''lediniz''"

definition all_displayed :: "pystr \<Rightarrow> bool" where
  "all_displayed text = py_in completion_phrase (py_lower (py_strip text))"

text \<open>
  The outer \<^verbatim>\<open>while True\<close>, with the default step of 550 pixels and at most 50 scrolls.
  It returns the number of clicks on the button and why it stopped; \<open>None\<close> is a loop
  that never ends.
\<close>

partial_function (option) scroll_and_click_until_all_displayed ::
  "(nat \<Rightarrow> result_page) \<Rightarrow> nat \<Rightarrow> (nat \<times> halt) option" where
  "scroll_and_click_until_all_displayed pages clicks =
     (case scroll_until_element_visible (pages clicks) 550 50 of
        None \<Rightarrow> Some (clicks, StatusNotVisible)
      | Some text \<Rightarrow>
          if all_displayed text then Some (clicks, AllDisplayed)
          else (case next_button (pages clicks) of
                  Inl e \<Rightarrow> Some (clicks, ClickFailed)
                | Inr _ \<Rightarrow> scroll_and_click_until_all_displayed pages (clicks + 1)))"

text \<open>A scripted run: the status texts the page shows, every lookup and click succeeding.\<close>

definition scripted :: "pystr list \<Rightarrow> nat \<Rightarrow> result_page" where
  "scripted texts n =
     \<lparr>status_lookup = (if n < length texts then Inr () else Inl NoSuchElementException),
      is_in_viewport = (\<lambda>pixels. True),
      status_text = (if n < length texts then texts ! n else []),
      next_button = Inr ()\<rparr>"

text \<open>Result pages on which the loader gets stuck, each for one reason.\<close>

definition status_missing :: "nat \<Rightarrow> result_page" where
  "status_missing n =
     \<lparr>status_lookup = Inl NoSuchElementException, is_in_viewport = (\<lambda>pixels. True),
      status_text = [], next_button = Inr ()\<rparr>"

definition status_hidden :: "nat \<Rightarrow> result_page" where
  "status_hidden n =
     \<lparr>status_lookup = Inr (), is_in_viewport = (\<lambda>pixels. False),
      status_text = of_ascii ''loading'', next_button = Inr ()\<rparr>"

definition button_missing :: "nat \<Rightarrow> result_page" where
  "button_missing n =
     \<lparr>status_lookup = Inr (), is_in_viewport = (\<lambda>pixels. True),
      status_text = of_ascii ''loading'', next_button = Inl NoSuchElementException\<rparr>"

section \<open>Properties of \<^verbatim>\<open>parse_price\<close>\<close>

lemmas float_defs =
  py_float_def float_ascii_def c_strip_def c_isspace_def is_digit_def split_sign_def
  ascii_lower_def parse_decimal_def parse_exponent_def digits_val_def pow10_def Let_def
  of_ascii_def

lemmas price_defs =
  parse_price_def clean_price_def truthy_def of_ascii_def py_strip_def py_isspace_def Let_def

lemma py_split_nonempty: "py_split sep s \<noteq> []"
  by (induction s) (auto split: list.splits)

lemma clean_price_returns: "\<exists>c. clean_price s = Inr c"
  by (simp add: clean_price_def Let_def py_split_nonempty split: list.splits)

lemma py_float_raises_only_ValueError: "py_float s = Inl e \<Longrightarrow> e = ValueError"
  by (auto simp: py_float_def Let_def split: option.splits if_splits prod.splits)

lemma clean_price_abc: "clean_price (of_ascii ''abc'') = Inr (of_ascii ''abc'')"
  by (simp add: clean_price_def of_ascii_def py_strip_def py_isspace_def Let_def)

lemma py_float_abc: "py_float (of_ascii ''abc'') = Inl ValueError"
  by (simp add: float_defs)

text \<open>
  C9: \<^verbatim>\<open>parse_price\<close> never raises on a string (nor on \<^verbatim>\<open>None\<close>): it returns a float
  for \<^verbatim>\<open>None\<close>, for the empty string and for every other string, and whenever
  \<^verbatim>\<open>float\<close> fails on the cleaned string the result is \<^verbatim>\<open>0.0\<close>.
\<close>

theorem parse_price_total:
  "parse_price PNone = Inr (Finite 0) \<and>
   parse_price (PStr []) = Inr (Finite 0) \<and>
   (\<exists>f. parse_price (PStr s) = Inr f) \<and>
   (\<forall>c e. clean_price s = Inr c \<longrightarrow> py_float c = Inl e \<longrightarrow>
      parse_price (PStr s) = Inr (Finite 0))"
proof -
  obtain c where c: "clean_price s = Inr c"
    using clean_price_returns by blast
  have total: "\<exists>f. parse_price (PStr s) = Inr f"
  proof (cases "py_float c")
    case (Inl e)
    then have "e = ValueError" by (rule py_float_raises_only_ValueError)
    with Inl c show ?thesis by (simp add: parse_price_def)
  next
    case (Inr f)
    with c show ?thesis by (simp add: parse_price_def)
  qed
  have failure: "parse_price (PStr s) = Inr (Finite 0)"
    if "clean_price s = Inr c'" "py_float c' = Inl e" for c' e
  proof -
    from that(2) have "e = ValueError" by (rule py_float_raises_only_ValueError)
    with that show ?thesis by (simp add: parse_price_def)
  qed
  show ?thesis
    using total failure by (simp add: parse_price_def truthy_def)
qed

theorem parse_price_total_witness:
  "clean_price (of_ascii ''abc'') = Inr (of_ascii ''abc'') \<and>
   py_float (of_ascii ''abc'') = Inl ValueError \<and>
   parse_price (PStr (of_ascii ''abc'')) = Inr (Finite 0)"
  using parse_price_total [of "of_ascii ''abc''"] clean_price_abc py_float_abc by blast

lemma of_ascii_TL: "of_ascii '' TL'' = [32, 84, 76]" by (simp add: of_ascii_def)
lemma of_ascii_comma: "of_ascii '','' = [44]" by (simp add: of_ascii_def)
lemma of_ascii_dot: "of_ascii ''.'' = [46]" by (simp add: of_ascii_def)

lemma replace_TL_suffix:
  "32 \<notin> set p \<Longrightarrow> py_replace [32, 84, 76] [] (p @ [32, 84, 76]) = p"
  by (induction p) auto

lemma dropWhile_none: "\<forall>x\<in>set xs. \<not> P x \<Longrightarrow> dropWhile P xs = xs"
  by (cases xs) auto

lemma py_strip_id: "\<forall>c\<in>set s. \<not> py_isspace c \<Longrightarrow> py_strip s = s"
  by (simp add: py_strip_def dropWhile_none)

lemma c_strip_id: "\<forall>c\<in>set s. \<not> c_isspace c \<Longrightarrow> c_strip s = s"
  by (simp add: c_strip_def dropWhile_none)

lemma replace_comma: "py_replace [44] [46] s = map (\<lambda>c. if c = 44 then 46 else c) s"
  by (induction s) auto

lemma py_split_no_sep: "sep \<notin> set g \<Longrightarrow> py_split sep g = [g]"
  by (induction g) auto

lemma py_split_at_sep: "sep \<notin> set g \<Longrightarrow> py_split sep (g @ sep # rest) = g # py_split sep rest"
  by (induction g) auto

lemma py_split_join_dots:
  "gs \<noteq> [] \<Longrightarrow> \<forall>g\<in>set gs. 46 \<notin> set g \<Longrightarrow> 46 \<notin> set fr \<Longrightarrow>
   py_split 46 (join_dots gs @ 46 # fr) = gs @ [fr]"
proof (induction gs rule: join_dots.induct)
  case 1
  then show ?case by simp
next
  case (2 g)
  then show ?case by (simp add: py_split_at_sep py_split_no_sep)
next
  case (3 g h hs)
  then show ?case by (simp add: py_split_at_sep of_ascii_dot)
qed

lemma strip_underscores_none:
  "95 \<notin> set s \<Longrightarrow> prev \<noteq> 95 \<Longrightarrow> strip_underscores prev s = Some s"
  by (induction s arbitrary: prev) auto

lemma digit_facts:
  "is_digit c \<Longrightarrow> c < 128 \<and> \<not> c_isspace c \<and> \<not> py_isspace c \<and> c \<noteq> 95 \<and> c \<noteq> 46 \<and> c \<noteq> 44 \<and> c \<noteq> 32
     \<and> c \<noteq> 45 \<and> c \<noteq> 43 \<and> ascii_lower c = c \<and> c \<noteq> 105 \<and> c \<noteq> 110"
  by (auto simp: is_digit_def c_isspace_def py_isspace_def ascii_lower_def)

lemma price_char_facts:
  "c = 46 \<or> c = 44 \<or> is_digit c \<Longrightarrow> \<not> py_isspace c \<and> c \<noteq> 32"
  by (auto simp: is_digit_def py_isspace_def)

lemma py_float_decimal:
  assumes ip: "digit_string ip" and fr: "digit_string fr"
  shows "py_float (ip @ 46 # fr) =
           Inr (round_double (of_nat (digits_val (ip @ fr)) / 10 ^ length fr))"
proof -
  let ?s = "ip @ 46 # fr"
  have dip: "\<forall>c\<in>set ip. is_digit c" and dfr: "\<forall>c\<in>set fr. is_digit c"
    using ip fr by (simp_all add: digit_string_def list_all_iff)
  obtain d t where ipd: "ip = d # t" and d: "is_digit d"
    using ip dip by (cases ip) (auto simp: digit_string_def)
  have all: "\<forall>c\<in>set ?s. c < 128 \<and> \<not> c_isspace c \<and> c \<noteq> 95"
    using dip dfr digit_facts by (auto simp: c_isspace_def)
  have "float_ascii x = x" if "x \<in> set ?s" for x
    using all that by (auto simp: float_ascii_def)
  then have m: "map float_ascii ?s = ?s"
    by (intro map_idI)
  have c: "c_strip ?s = ?s"
    using all by (intro c_strip_id) simp
  have u: "strip_underscores 0 ?s = Some ?s"
    using all by (intro strip_underscores_none) auto
  have sg: "split_sign ?s = (False, ?s)"
    using d digit_facts[of d] by (simp add: split_sign_def ipd)
  have low: "map ascii_lower ?s = d # map ascii_lower (t @ 46 # fr)"
    using d digit_facts[of d] by (simp add: ipd)
  have notkw: "map ascii_lower ?s \<noteq> of_ascii ''inf''" "map ascii_lower ?s \<noteq> of_ascii ''infinity''"
    "map ascii_lower ?s \<noteq> of_ascii ''nan''"
    using d digit_facts[of d] unfolding low by (auto simp: of_ascii_def)
  have tw: "takeWhile is_digit ?s = ip" "dropWhile is_digit ?s = 46 # fr"
    using dip by (simp_all add: takeWhile_append2 dropWhile_append2 is_digit_def)
  have tw2: "takeWhile is_digit fr = fr" "dropWhile is_digit fr = []"
    using dfr by simp_all
  have pd: "parse_decimal ?s = Some (of_nat (digits_val (ip @ fr)) * pow10 (- int (length fr)))"
    using ip fr by (simp add: parse_decimal_def tw tw2 parse_exponent_def digit_string_def)
  have p10: "pow10 (- int (length fr)) = 1 / 10 ^ length fr"
    using fr by (simp add: pow10_def digit_string_def)
  show ?thesis
    unfolding py_float_def m c u
    using notkw by (simp add: sg pd p10 del: map_append)
qed

lemma join_dots_set: "set (join_dots gs) \<subseteq> insert 46 (\<Union> (set ` set gs))"
  by (induction gs rule: join_dots.induct) (auto simp: of_ascii_dot)

lemma clean_price_turkish:
  assumes gs: "gs \<noteq> []" "\<forall>g\<in>set gs. digit_string g" and fr: "digit_string fr"
  shows "clean_price (turkish_price gs fr) = Inr (concat gs @ 46 # fr)"
proof -
  have dg: "\<forall>g\<in>set gs. \<forall>c\<in>set g. is_digit c" and dfr: "\<forall>c\<in>set fr. is_digit c"
    using gs fr by (simp_all add: digit_string_def list_all_iff)
  let ?p = "join_dots gs @ 44 # fr"
  have pset: "\<forall>c\<in>set ?p. c = 46 \<or> c = 44 \<or> is_digit c"
    using join_dots_set[of gs] dg dfr by auto
  have nosp: "32 \<notin> set ?p" "\<forall>c\<in>set ?p. \<not> py_isspace c"
    using pset price_char_facts by blast+
  have r1: "py_replace (of_ascii '' TL'') [] (turkish_price gs fr) = ?p"
    using replace_TL_suffix[OF nosp(1)] by (simp add: turkish_price_def of_ascii_TL of_ascii_comma)
  have jd: "c = 46 \<or> is_digit c" if "c \<in> set (join_dots gs)" for c
    using join_dots_set[of gs] dg that by auto
  have nc1: "c \<noteq> 44" if "c \<in> set (join_dots gs)" for c
    using jd[OF that] digit_facts[of c] by auto
  have nc2: "c \<noteq> 44" if "c \<in> set fr" for c
    using dfr that digit_facts[of c] by auto
  have nocomma: "map (\<lambda>c. if c = 44 then 46 else c) (join_dots gs) = join_dots gs"
    "map (\<lambda>c. if c = 44 then 46 else c) fr = fr"
    using nc1 nc2 by (simp_all add: map_idI)
  have r2: "py_replace (of_ascii '','') (of_ascii ''.'') ?p = join_dots gs @ 46 # fr"
    by (simp add: of_ascii_comma of_ascii_dot replace_comma nocomma)
  have nd1: "46 \<notin> set g" if "g \<in> set gs" for g
    using dg that digit_facts by blast
  have nd2: "46 \<notin> set fr"
    using dfr digit_facts by blast
  have sp: "py_split 46 (join_dots gs @ 46 # fr) = gs @ [fr]"
    using gs(1) nd1 nd2 by (intro py_split_join_dots) auto
  have st: "py_strip ?p = ?p"
    by (rule py_strip_id[OF nosp(2)])
  obtain g gs' where gsc: "gs = g # gs'"
    using gs(1) by (cases gs) auto
  show ?thesis
    unfolding clean_price_def r1 st r2 sp Let_def
    by (simp add: gsc of_ascii_dot butlast_append)
qed

lemma parse_price_turkish_general:
  assumes gs: "gs \<noteq> []" "\<forall>g\<in>set gs. digit_string g" and fr: "digit_string fr"
  shows "parse_price (PStr (turkish_price gs fr)) =
           Inr (round_double (of_nat (digits_val (concat gs @ fr)) / 10 ^ length fr))"
proof -
  have ip: "digit_string (concat gs)"
    using gs by (cases gs) (auto simp: digit_string_def list_all_iff)
  have ne: "turkish_price gs fr \<noteq> []"
    by (simp add: turkish_price_def of_ascii_def)
  show ?thesis
    using ne by (simp add: parse_price_def truthy_def clean_price_turkish[OF gs fr]
        py_float_decimal[OF ip fr])
qed
lemma round_double_43990: "round_double 43990 = Finite 43990"
  unfolding round_double_def Let_def
  apply (simp add: ilog2_def bitlen.simps)
  apply (simp add: pow2_def)
  apply (simp add: round_half_even_def Let_def)
  done

lemma round_double_100: "round_double 100 = Finite 100"
  unfolding round_double_def Let_def
  apply (simp add: ilog2_def bitlen.simps)
  apply (simp add: pow2_def)
  apply (simp add: round_half_even_def Let_def)
  done

lemma parse_price_example: "parse_price (PStr (of_ascii ''43.990,00 TL'')) = Inr (Finite 43990)"
proof -
  have "parse_price (PStr (of_ascii ''43.990,00 TL'')) = Inr (round_double 43990)"
    apply (simp add: price_defs)
    apply (simp add: float_defs)
    done
  then show ?thesis by (simp only: round_double_43990)
qed

lemma parse_price_100: "parse_price (PStr (of_ascii ''100'')) = Inr (Finite 100)"
proof -
  have "parse_price (PStr (of_ascii ''100'')) = Inr (round_double 100)"
    apply (simp add: price_defs)
    apply (simp add: float_defs)
    done
  then show ?thesis by (simp only: round_double_100)
qed

lemma parse_price_abc: "parse_price (PStr (of_ascii ''abc'')) = Inr (Finite 0)"
  apply (simp add: price_defs)
  apply (simp add: float_defs)
  done

lemma parse_price_algorithm:
  assumes "s \<noteq> []"
  shows "(let parts = py_split 46 (py_replace (of_ascii '','') (of_ascii ''.'')
                        (py_strip (py_replace (of_ascii '' TL'') [] s)))
          in parse_price (PStr s) =
             (case py_float (if 1 < length parts
                             then concat (butlast parts) @ of_ascii ''.'' @ last parts
                             else concat parts) of
                Inr f \<Rightarrow> Inr f
              | Inl e \<Rightarrow> Inr (Finite 0)))"
proof -
  define parts where "parts = py_split 46 (py_replace (of_ascii '','') (of_ascii ''.'')
                        (py_strip (py_replace (of_ascii '' TL'') [] s)))"
  define cleaned where "cleaned = (if 1 < length parts
                             then concat (butlast parts) @ of_ascii ''.'' @ last parts
                             else concat parts)"
  obtain p ps where pp: "parts = p # ps"
    using py_split_nonempty[of 46] unfolding parts_def by (meson list.exhaust)
  have cp: "clean_price s = Inr cleaned"
    unfolding clean_price_def Let_def parts_def[symmetric] cleaned_def
    by (simp add: pp)
  have "parse_price (PStr s) = (case py_float cleaned of Inr f \<Rightarrow> Inr f | Inl e \<Rightarrow> Inr (Finite 0))"
  proof (cases "py_float cleaned")
    case (Inl e)
    then have "e = ValueError" by (rule py_float_raises_only_ValueError)
    with Inl cp assms show ?thesis by (simp add: parse_price_def truthy_def)
  next
    case (Inr f)
    with cp assms show ?thesis by (simp add: parse_price_def truthy_def)
  qed
  then show ?thesis
    unfolding Let_def parts_def[symmetric] cleaned_def[symmetric] .
qed

text \<open>
  C1: on every price of the pattern \<^verbatim>\<open>D.DDD,DD TL\<close> (digit groups joined by dots, a comma,
  fraction digits, the suffix) \<^verbatim>\<open>parse_price\<close> returns the float nearest to the number
  read with the dots removed and the comma as decimal point;
  \<^verbatim>\<open>parse_price("43.990,00 TL") = 43990.0\<close>, \<^verbatim>\<open>parse_price("") = 0.0\<close>,
  \<^verbatim>\<open>parse_price("abc") = 0.0\<close>, \<^verbatim>\<open>parse_price("100") = 100.0\<close>; and on every non-empty
  string the result is \<^verbatim>\<open>float\<close> (or \<^verbatim>\<open>0.0\<close> when it fails) of the string obtained by
  removing \<^verbatim>\<open>" TL"\<close>, stripping, replacing commas by dots, splitting at the dots and
  joining all parts but the last, one dot, and the last part.
\<close>

theorem parse_price_turkish:
  "(\<forall>gs fr. gs \<noteq> [] \<and> (\<forall>g\<in>set gs. digit_string g) \<and> digit_string fr \<longrightarrow>
      parse_price (PStr (turkish_price gs fr)) =
        Inr (round_double (of_nat (digits_val (concat gs @ fr)) / 10 ^ length fr))) \<and>
   parse_price (PStr (of_ascii ''43.990,00 TL'')) = Inr (Finite 43990) \<and>
   parse_price (PStr (of_ascii '''')) = Inr (Finite 0) \<and>
   parse_price (PStr (of_ascii ''abc'')) = Inr (Finite 0) \<and>
   parse_price (PStr (of_ascii ''100'')) = Inr (Finite 100) \<and>
   (\<forall>s. s \<noteq> [] \<longrightarrow>
      (let parts = py_split 46 (py_replace (of_ascii '','') (of_ascii ''.'')
                     (py_strip (py_replace (of_ascii '' TL'') [] s)))
       in parse_price (PStr s) =
          (case py_float (if 1 < length parts
                          then concat (butlast parts) @ of_ascii ''.'' @ last parts
                          else concat parts) of
             Inr f \<Rightarrow> Inr f
           | Inl e \<Rightarrow> Inr (Finite 0))))"
proof -
  have empty: "parse_price (PStr (of_ascii '''')) = Inr (Finite 0)"
    by (simp add: parse_price_def truthy_def of_ascii_def)
  show ?thesis
    using parse_price_turkish_general parse_price_example empty parse_price_abc
      parse_price_100 parse_price_algorithm
    by blast
qed

lemma turkish_price_example:
  "turkish_price [of_ascii ''43'', of_ascii ''990''] (of_ascii ''00'') = of_ascii ''43.990,00 TL''"
  by (simp add: turkish_price_def of_ascii_def)

lemma digit_string_examples:
  "digit_string (of_ascii ''43'')" "digit_string (of_ascii ''990'')" "digit_string (of_ascii ''00'')"
  by (simp_all add: digit_string_def is_digit_def of_ascii_def)

lemma digits_val_example:
  "rat_of_nat (digits_val (concat [of_ascii ''43'', of_ascii ''990''] @ of_ascii ''00'')) / 10 ^ length (of_ascii ''00'') = 43990"
  by (simp add: digits_val_def of_ascii_def)

theorem parse_price_turkish_witness:
  "[of_ascii ''43'', of_ascii ''990''] \<noteq> [] \<and>
   digit_string (of_ascii ''43'') \<and> digit_string (of_ascii ''990'') \<and>
   digit_string (of_ascii ''00'') \<and>
   parse_price (PStr (turkish_price [of_ascii ''43'', of_ascii ''990''] (of_ascii ''00''))) =
     Inr (Finite 43990) \<and>
   of_ascii ''100'' \<noteq> [] \<and>
   parse_price (PStr (of_ascii ''100'')) = Inr (Finite 100)"
proof -
  have h: "[of_ascii ''43'', of_ascii ''990''] \<noteq> [] \<and>
     (\<forall>g\<in>set [of_ascii ''43'', of_ascii ''990'']. digit_string g) \<and>
     digit_string (of_ascii ''00'')"
    using digit_string_examples by simp
  have ne: "of_ascii ''100'' \<noteq> []" by (simp add: of_ascii_def)
  from parse_price_turkish h
  have "parse_price (PStr (turkish_price [of_ascii ''43'', of_ascii ''990''] (of_ascii ''00''))) =
        Inr (round_double (of_nat (digits_val (concat [of_ascii ''43'', of_ascii ''990''] @ of_ascii ''00'')) / 10 ^ length (of_ascii ''00'')))"
    by blast
  then have a: "parse_price (PStr (turkish_price [of_ascii ''43'', of_ascii ''990''] (of_ascii ''00''))) = Inr (Finite 43990)"
    by (simp only: digits_val_example round_double_43990)
  from parse_price_turkish have b: "parse_price (PStr (of_ascii ''100'')) = Inr (Finite 100)"
    by blast
  show ?thesis using digit_string_examples ne a b by blast
qed
lemma floor_numeral_div: "\<lfloor>(numeral a :: rat) / numeral b\<rfloor> = numeral a div numeral b"
  using floor_divide_of_int_eq[of "numeral a" "numeral b", where ?'a = rat] by simp

lemma ceiling_numeral_div: "\<lceil>(numeral a :: rat) / numeral b\<rceil> = - ((- numeral a) div numeral b)"
  using floor_divide_of_int_eq[of "- numeral a" "numeral b", where ?'a = rat]
  by (simp add: ceiling_def)

lemmas rd_step1 = ilog2_def bitlen.simps floor_numeral_div ceiling_numeral_div
lemmas rd_step3 = round_half_even_def Let_def floor_numeral_div

lemma length_py_split: "length (py_split sep s) = count_list s sep + 1"
proof (induction s)
  case Nil
  then show ?case by simp
next
  case (Cons c cs)
  obtain p ps where "py_split sep cs = p # ps"
    using py_split_nonempty[of sep cs] by (cases "py_split sep cs") auto
  with Cons show ?case by auto
qed

lemma score_features_count:
  "score_features (PStr s) acc =
     (if s = [] then Inr acc
      else Inr (fadd acc (fmul (float_lit (5 / 100)) (float_of_int (int (count_list s 44 + 1))))))"
  by (simp add: score_features_def truthy_def Let_def length_py_split)

lemma round_double_1_20:
  "round_double (1 / 20) = Finite (3602879701896397 / 72057594037927936)"
  unfolding round_double_def Let_def
  apply (simp add: rd_step1)
  apply (simp add: pow2_def)
  apply (simp add: rd_step3)
  done

lemma round_double_1_10:
  "round_double (1 / 10) = Finite (3602879701896397 / 36028797018963968)"
  unfolding round_double_def Let_def
  apply (simp add: rd_step1)
  apply (simp add: pow2_def)
  apply (simp add: rd_step3)
  done

lemma round_double_2: "round_double 2 = Finite 2"
  unfolding round_double_def Let_def
  apply (simp add: rd_step1)
  apply (simp add: pow2_def)
  apply (simp add: rd_step3)
  done

lemma round_double_1: "round_double 1 = Finite 1"
  unfolding round_double_def Let_def
  apply (simp add: rd_step1)
  apply (simp add: pow2_def)
  apply (simp add: rd_step3)
  done

lemma round_double_tenth_again:
  "round_double (3602879701896397 / 36028797018963968) = Finite (3602879701896397 / 36028797018963968)"
  unfolding round_double_def Let_def
  apply (simp add: rd_step1)
  apply (simp add: pow2_def)
  apply (simp add: rd_step3)
  done

lemma two_features: "fmul (float_lit (5 / 100)) (float_of_int 2) = float_lit (1 / 10)"
proof -
  have "fmul (float_lit (5 / 100)) (float_of_int 2) =
        round_double (3602879701896397 / 72057594037927936 * 2)"
    by (simp add: float_lit_def float_of_int_def round_double_1_20 round_double_2)
  also have "\<dots> = round_double (3602879701896397 / 36028797018963968)" by simp
  finally show ?thesis
    by (simp only: round_double_tenth_again float_lit_def round_double_1_10)
qed
lemmas rd_eval =
  round_double_def Let_def

lemma round_double_2_1:
  "round_double (75660473739824333 / 36028797018963968) = Finite (4728779608739021 / 2251799813685248)"
  unfolding round_double_def Let_def
  apply (simp add: rd_step1)
  apply (simp add: pow2_def)
  apply (simp add: rd_step3)
  done

lemma round_double_4_1:
  "round_double (9232379236109517 / 2251799813685248) = Finite (2308094809027379 / 562949953421312)"
  unfolding round_double_def Let_def
  apply (simp add: rd_step1)
  apply (simp add: pow2_def)
  apply (simp add: rd_step3)
  done

lemma round_double_41_10:
  "round_double (41 / 10) = Finite (2308094809027379 / 562949953421312)"
  unfolding round_double_def Let_def
  apply (simp add: rd_step1)
  apply (simp add: pow2_def)
  apply (simp add: rd_step3)
  done

lemma compute_base_score_general:
  assumes "str_field h ''cancel_policy'' = Some cp"
    and "str_field h ''hotel_features'' = Some fs"
    and "str_field h ''accommodation_types'' = Some ac"
  shows "compute_base_score h =
     Inr (add_points (category_points (py_lower (py_strip ac)))
           (add_points (feature_points fs)
             (add_points (recommended_points (dict_get h ''recomended_hotel'' PNone))
               (add_points (cancel_points cp) (Finite 0)))))"
proof -
  have cpv: "dict_get h ''cancel_policy'' (PStr []) = PStr cp"
    and fsv: "dict_get h ''hotel_features'' (PStr []) = PStr fs"
    and acv: "dict_get h ''accommodation_types'' (PStr []) = PStr ac"
    using assms by (auto simp: str_field_def split: pyval.splits)
  show ?thesis
    unfolding compute_base_score_def cpv fsv acv
    by (simp add: score_cancel_policy_def score_recommended_def score_features_count
        score_accommodation_def add_points_def cancel_points_def recommended_points_def
        feature_points_def category_points_def Let_def)
qed

lemma example_fields:
  "str_field example_hotel ''cancel_policy'' = Some (of_ascii ''Risksiz rezervasyon dahil'')"
  "str_field example_hotel ''hotel_features'' = Some (of_ascii ''Wifi, Pool'')"
  "str_field example_hotel ''accommodation_types'' = Some (of_ascii ''Ultra Her '' @ [350] @ of_ascii ''ey Dahil'')"
  "dict_get example_hotel ''recomended_hotel'' PNone = PStr (of_ascii ''x'')"
  by (simp_all add: str_field_def dict_get_def example_hotel_def)

lemma example_cancel: "cancel_points (of_ascii ''Risksiz rezervasyon dahil'') = Some (Finite 1)"
  by (simp add: cancel_points_def risksiz_def of_ascii_def float_lit_def round_double_1)

lemma example_recommended: "recommended_points (PStr (of_ascii ''x'')) = Some (Finite 1)"
  by (simp add: recommended_points_def float_lit_def round_double_1)

lemma example_features: "feature_points (of_ascii ''Wifi, Pool'') = Some (float_lit (1 / 10))"
proof -
  have "count_list (of_ascii ''Wifi, Pool'') 44 + 1 = 2" "of_ascii ''Wifi, Pool'' \<noteq> []"
    by (simp_all add: of_ascii_def)
  then show ?thesis
    unfolding feature_points_def by (simp only: two_features if_False of_nat_numeral)
qed

lemma example_category:
  "category_points (py_lower (py_strip (of_ascii ''Ultra Her '' @ [350] @ of_ascii ''ey Dahil''))) =
     Some (Finite 2)"
proof -
  have "py_lower (py_strip (of_ascii ''Ultra Her '' @ [350] @ of_ascii ''ey Dahil'')) =
        ultra_her_sey_dahil"
    by (simp add: py_lower_def lower_char_def py_strip_def py_isspace_def of_ascii_def
        ultra_her_sey_dahil_def)
  moreover have "py_in ultra_her_sey_dahil ultra_her_sey_dahil"
    by (simp add: ultra_her_sey_dahil_def of_ascii_def)
  ultimately show ?thesis
    by (simp add: category_points_def float_lit_def round_double_2)
qed

lemmas example_points = example_cancel example_recommended example_features example_category

lemma example_score: "compute_base_score example_hotel = Inr (float_lit (41 / 10))"
proof -
  have "compute_base_score example_hotel =
        Inr (fadd (fadd (fadd (fadd (Finite 0) (Finite 1)) (Finite 1)) (float_lit (1 / 10))) (Finite 2))"
    unfolding compute_base_score_general[OF example_fields(1-3)] example_fields(4)
      example_points add_points_def
    by simp
  also have "fadd (Finite 0) (Finite 1) = Finite 1" by (simp add: round_double_1)
  also have "fadd (Finite 1) (Finite 1) = Finite 2" by (simp add: round_double_2)
  also have "fadd (Finite 2) (float_lit (1 / 10)) = Finite (4728779608739021 / 2251799813685248)"
    by (simp add: float_lit_def round_double_1_10 round_double_2_1)
  also have "fadd (Finite (4728779608739021 / 2251799813685248)) (Finite 2) = float_lit (41 / 10)"
    by (simp add: float_lit_def round_double_41_10 round_double_4_1)
  finally show ?thesis .
qed


lemma single_comma_score:
  "score_features (PStr (of_ascii '','')) (Finite 0) = Inr (float_lit (10 / 100))"
proof -
  have "count_list (of_ascii '','') 44 + 1 = 2" "of_ascii '','' \<noteq> []"
    by (simp_all add: of_ascii_def)
  then have "score_features (PStr (of_ascii '','')) (Finite 0) =
             Inr (fadd (Finite 0) (float_lit (1 / 10)))"
    unfolding score_features_count by (simp only: two_features if_False of_nat_numeral)
  also have "fadd (Finite 0) (float_lit (1 / 10)) = float_lit (1 / 10)"
    by (simp add: float_lit_def round_double_1_10 round_double_tenth_again)
  finally show ?thesis by simp
qed

text \<open>
  C10: for a non-empty feature string the contribution is \<^verbatim>\<open>0.05\<close> times the number of
  commas plus one, empty tokens included: a single comma scores \<^verbatim>\<open>0.10\<close>, and
  \<^verbatim>\<open>"Wifi,"\<close> scores what \<^verbatim>\<open>"Wifi, Pool"\<close> scores; the empty string and an absent key
  add nothing.
\<close>

theorem feature_contribution_counts_commas:
  "score_features (PStr s) acc =
     (if s = [] then Inr acc
      else Inr (fadd acc (fmul (float_lit (5 / 100)) (float_of_int (int (count_list s 44 + 1)))))) \<and>
   score_features (PStr (of_ascii '','')) (Finite 0) = Inr (float_lit (10 / 100)) \<and>
   score_features (PStr (of_ascii ''Wifi,'')) acc =
     score_features (PStr (of_ascii ''Wifi, Pool'')) acc \<and>
   score_features (PStr []) acc = Inr acc \<and>
   score_features (dict_get Map.empty ''hotel_features'' (PStr [])) acc = Inr acc"
proof -
  have "score_features (PStr (of_ascii ''Wifi,'')) acc =
        score_features (PStr (of_ascii ''Wifi, Pool'')) acc"
    unfolding score_features_count by (simp add: of_ascii_def)
  moreover have "score_features (PStr []) acc = Inr acc"
    by (simp add: score_features_count)
  moreover have "score_features (dict_get Map.empty ''hotel_features'' (PStr [])) acc = Inr acc"
    by (simp add: score_features_count dict_get_def)
  ultimately show ?thesis
    using score_features_count single_comma_score by blast
qed
lemma parse_price_nan: "parse_price (PStr (of_ascii ''nan TL'')) = Inr NaN"
  apply (simp add: price_defs)
  apply (simp add: float_defs)
  done

lemma float_of_int_0: "float_of_int 0 = Finite 0"
  by (simp add: float_of_int_def round_double_def)

lemma float_of_int_1: "float_of_int 1 = Finite 1"
  by (simp add: float_of_int_def round_double_1)

lemma nan_price_hotel_other: "k \<noteq> ''price'' \<Longrightarrow> dict_get nan_price_hotel k d = dict_get example_hotel k d"
  by (simp add: dict_get_def nan_price_hotel_def)

lemma nan_price_hotel_base: "compute_base_score nan_price_hotel = compute_base_score example_hotel"
  unfolding compute_base_score_def
  by (simp add: nan_price_hotel_other cong del: sum.case_cong_weak)

lemma final_score_of_number:
  assumes "parse_price (dict_get h ''price'' (PStr [])) = Inr pv"
    and "compute_base_score h = Inr b" and "pv \<noteq> NaN"
  shows "compute_final_score h = fdiv b (if flt (Finite 0) pv then pv else Finite 1)"
proof -
  have "fle pv (Finite 0) = (\<not> flt (Finite 0) pv)"
    using assms(3) by (cases pv) auto
  then show ?thesis
    using assms(1,2) by (simp add: compute_final_score_def float_of_int_0 float_of_int_1)
qed

text \<open>
  C2 at the price text \<^verbatim>\<open>"nan TL"\<close>: \<^verbatim>\<open>parse_price\<close> returns not-a-number, which the guard
  \<^verbatim>\<open>price_val <= 0\<close> lets through, so the final score is not-a-number: it is neither
  finite nor the base score \<^verbatim>\<open>4.10\<close> of the record.
\<close>

theorem compute_final_score_nan_price:
  "parse_price (PStr (of_ascii ''nan TL'')) = Inr NaN \<and>
   compute_base_score nan_price_hotel = Inr (float_lit (41 / 10)) \<and>
   compute_final_score nan_price_hotel = Inr NaN \<and>
   \<not> is_finite NaN"
proof -
  have p: "parse_price (dict_get nan_price_hotel ''price'' (PStr [])) = Inr NaN"
    by (simp add: dict_get_def nan_price_hotel_def parse_price_nan)
  have b: "compute_base_score nan_price_hotel = Inr (float_lit (41 / 10))"
    by (simp only: nan_price_hotel_base example_score)
  have "compute_final_score nan_price_hotel = Inr NaN"
    by (simp add: compute_final_score_def p b float_of_int_0 float_lit_def round_double_41_10)
  then show ?thesis
    using parse_price_nan b by (simp add: is_finite_def)
qed
lemma scroll_loop_le: "scroll_loop in_view st m c \<le> max m c"
proof (induction in_view st m c rule: scroll_loop.induct)
  case (1 in_view st m c)
  show ?case
  proof (cases "\<not> in_view (st * c) \<and> c < m")
    case True
    then have "scroll_loop in_view st m c = scroll_loop in_view st m (c + 1)"
      by (simp add: scroll_loop.simps[of in_view st m c])
    moreover have "scroll_loop in_view st m (c + 1) \<le> max m (c + 1)"
      using 1 True by blast
    ultimately show ?thesis using True by simp
  next
    case False
    then have "scroll_loop in_view st m c = c"
      by (auto simp: scroll_loop.simps[of in_view st m c])
    then show ?thesis by simp
  qed
qed

lemma scroll_never_visible:
  assumes "\<forall>c\<le>m. \<not> is_in_viewport p (st * c)"
  shows "scroll_until_element_visible p st m = None"
proof -
  have "scroll_loop (is_in_viewport p) st m 0 \<le> m"
    using scroll_loop_le[of "is_in_viewport p" st m 0] by simp
  with assms show ?thesis
    by (simp add: scroll_until_element_visible_def Let_def split: sum.splits)
qed

lemma scroll_not_found:
  "status_lookup p = Inl e \<Longrightarrow> scroll_until_element_visible p st m = None"
  by (simp add: scroll_until_element_visible_def)

lemma loader_step:
  assumes "scroll_until_element_visible (pages n) 550 50 = Some t" "\<not> all_displayed t"
    "next_button (pages n) = Inr u"
  shows "scroll_and_click_until_all_displayed pages n =
         scroll_and_click_until_all_displayed pages (n + 1)"
  using assms by (subst scroll_and_click_until_all_displayed.simps) simp

lemma loader_runs_to:
  assumes "\<forall>i. n \<le> i \<and> i < k \<longrightarrow>
             (\<exists>t. scroll_until_element_visible (pages i) 550 50 = Some t \<and> \<not> all_displayed t) \<and>
             (\<exists>u. next_button (pages i) = Inr u)"
    and "n \<le> k"
  shows "scroll_and_click_until_all_displayed pages n =
         scroll_and_click_until_all_displayed pages k"
  using assms
proof (induction "k - n" arbitrary: n)
  case 0
  then show ?case by simp
next
  case (Suc d)
  then have nk: "n < k" by simp
  with Suc.prems(1) obtain t u where
    "scroll_until_element_visible (pages n) 550 50 = Some t" "\<not> all_displayed t"
    "next_button (pages n) = Inr u"
    by (metis le_refl)
  then have "scroll_and_click_until_all_displayed pages n =
             scroll_and_click_until_all_displayed pages (n + 1)"
    by (rule loader_step)
  also have "\<dots> = scroll_and_click_until_all_displayed pages k"
  proof (rule Suc.hyps(1))
    show "d = k - (n + 1)" using Suc.hyps(2) by simp
    show "\<forall>i. n + 1 \<le> i \<and> i < k \<longrightarrow>
             (\<exists>t. scroll_until_element_visible (pages i) 550 50 = Some t \<and> \<not> all_displayed t) \<and>
             (\<exists>u. next_button (pages i) = Inr u)"
      using Suc.prems(1) by simp
    show "n + 1 \<le> k" using nk by simp
  qed
  finally show ?case .
qed
lemma scripted_visible:
  "n < length texts \<Longrightarrow> scroll_until_element_visible (scripted texts n) 550 50 = Some (texts ! n)"
  by (simp add: scroll_until_element_visible_def scripted_def Let_def)

lemma loader_complete_at:
  assumes "\<forall>i<k. (\<exists>t. scroll_until_element_visible (pages i) 550 50 = Some t \<and> \<not> all_displayed t) \<and>
                  (\<exists>u. next_button (pages i) = Inr u)"
    and "\<exists>t. scroll_until_element_visible (pages k) 550 50 = Some t \<and> all_displayed t"
  shows "scroll_and_click_until_all_displayed pages 0 = Some (k, AllDisplayed)"
proof -
  have "scroll_and_click_until_all_displayed pages 0 =
        scroll_and_click_until_all_displayed pages k"
    using assms(1) by (intro loader_runs_to) auto
  also have "\<dots> = Some (k, AllDisplayed)"
    using assms(2) by (subst scroll_and_click_until_all_displayed.simps) auto
  finally show ?thesis .
qed

lemma loader_scripted:
  assumes "k < length texts" "all_displayed (texts ! k)" "\<forall>i<k. \<not> all_displayed (texts ! i)"
  shows "scroll_and_click_until_all_displayed (scripted texts) 0 = Some (k, AllDisplayed)"
proof (rule loader_complete_at)
  show "\<forall>i<k. (\<exists>t. scroll_until_element_visible (scripted texts i) 550 50 = Some t \<and> \<not> all_displayed t) \<and>
              (\<exists>u. next_button (scripted texts i) = Inr u)"
    using assms by (simp add: scripted_visible) (simp add: scripted_def)
  show "\<exists>t. scroll_until_element_visible (scripted texts k) 550 50 = Some t \<and> all_displayed t"
    using assms by (simp add: scripted_visible)
qed

lemma all_displayed_examples:
  "all_displayed completion_phrase" "\<not> all_displayed (of_ascii ''loading'')"
  by (simp_all add: all_displayed_def completion_phrase_def py_lower_def lower_char_def
      py_strip_def py_isspace_def of_ascii_def)

lemma loader_example:
  "scroll_and_click_until_all_displayed
     (scripted [of_ascii ''loading'', of_ascii ''loading'', completion_phrase]) 0 =
   Some (2, AllDisplayed)"
proof (rule loader_scripted)
  show "\<forall>i<2. \<not> all_displayed ([of_ascii ''loading'', of_ascii ''loading'', completion_phrase] ! i)"
    using all_displayed_examples(2) by (auto simp: less_Suc_eq numeral_2_eq_2)
qed (simp_all add: all_displayed_examples)

text \<open>
  C7: when the status text first contains the completion phrase (stripped, lower-cased)
  after \<open>k\<close> rounds, the status being visible and the button clickable in each round
  before, the loader clicks the button exactly \<open>k\<close> times and halts with all items
  displayed; on the scripted texts \<^verbatim>\<open>loading\<close>, \<^verbatim>\<open>loading\<close>, completion phrase it clicks
  twice.
\<close>

theorem loader_clicks_until_complete:
  "(\<forall>pages k.
      (\<forall>i<k. (\<exists>t. scroll_until_element_visible (pages i) 550 50 = Some t \<and> \<not> all_displayed t) \<and>
              (\<exists>u. next_button (pages i) = Inr u)) \<and>
      (\<exists>t. scroll_until_element_visible (pages k) 550 50 = Some t \<and> all_displayed t) \<longrightarrow>
      scroll_and_click_until_all_displayed pages 0 = Some (k, AllDisplayed)) \<and>
   (\<forall>texts k.
      k < length texts \<and> all_displayed (texts ! k) \<and> (\<forall>i<k. \<not> all_displayed (texts ! i)) \<longrightarrow>
      scroll_and_click_until_all_displayed (scripted texts) 0 = Some (k, AllDisplayed)) \<and>
   scroll_and_click_until_all_displayed
     (scripted [of_ascii ''loading'', of_ascii ''loading'', completion_phrase]) 0 =
   Some (2, AllDisplayed)"
  using loader_complete_at loader_scripted loader_example by blast

theorem loader_clicks_until_complete_witness:
  "1 < length [of_ascii ''loading'', completion_phrase] \<and>
   all_displayed ([of_ascii ''loading'', completion_phrase] ! 1) \<and>
   \<not> all_displayed ([of_ascii ''loading'', completion_phrase] ! 0) \<and>
   scroll_and_click_until_all_displayed (scripted [of_ascii ''loading'', completion_phrase]) 0 =
     Some (1, AllDisplayed)"
proof -
  have a: "1 < length [of_ascii ''loading'', completion_phrase]" by simp
  have b: "all_displayed ([of_ascii ''loading'', completion_phrase] ! 1)"
    by (simp add: all_displayed_examples)
  have c: "\<not> all_displayed ([of_ascii ''loading'', completion_phrase] ! 0)"
    by (simp add: all_displayed_examples)
  then have d: "\<forall>i<1. \<not> all_displayed ([of_ascii ''loading'', completion_phrase] ! i)"
    by simp
  from loader_clicks_until_complete a b d
  have "scroll_and_click_until_all_displayed (scripted [of_ascii ''loading'', completion_phrase]) 0 =
     Some (1, AllDisplayed)"
    by blast
  with a b c show ?thesis by blast
qed
lemma loader_stuck_at:
  assumes run: "\<forall>i<k. (\<exists>t. scroll_until_element_visible (pages i) 550 50 = Some t \<and> \<not> all_displayed t) \<and>
                  (\<exists>u. next_button (pages i) = Inr u)"
  shows "(\<exists>e. status_lookup (pages k) = Inl e) \<longrightarrow>
           scroll_and_click_until_all_displayed pages 0 = Some (k, StatusNotVisible)"
    and "(\<forall>c\<le>50. \<not> is_in_viewport (pages k) (550 * c)) \<longrightarrow>
           scroll_and_click_until_all_displayed pages 0 = Some (k, StatusNotVisible)"
    and "(\<exists>t e. scroll_until_element_visible (pages k) 550 50 = Some t \<and> \<not> all_displayed t \<and>
            next_button (pages k) = Inl e) \<longrightarrow>
           scroll_and_click_until_all_displayed pages 0 = Some (k, ClickFailed)"
proof -
  have to_k: "scroll_and_click_until_all_displayed pages 0 =
        scroll_and_click_until_all_displayed pages k"
    using run by (intro loader_runs_to) auto
  show "(\<exists>e. status_lookup (pages k) = Inl e) \<longrightarrow>
           scroll_and_click_until_all_displayed pages 0 = Some (k, StatusNotVisible)"
    unfolding to_k
    by (subst scroll_and_click_until_all_displayed.simps) (auto simp: scroll_not_found)
  show "(\<forall>c\<le>50. \<not> is_in_viewport (pages k) (550 * c)) \<longrightarrow>
           scroll_and_click_until_all_displayed pages 0 = Some (k, StatusNotVisible)"
    unfolding to_k
    by (subst scroll_and_click_until_all_displayed.simps) (auto simp: scroll_never_visible)
  show "(\<exists>t e. scroll_until_element_visible (pages k) 550 50 = Some t \<and> \<not> all_displayed t \<and>
            next_button (pages k) = Inl e) \<longrightarrow>
           scroll_and_click_until_all_displayed pages 0 = Some (k, ClickFailed)"
    unfolding to_k
    by (subst scroll_and_click_until_all_displayed.simps) auto
qed

lemma scroll_loop_at_most_50: "scroll_loop in_view 550 50 0 \<le> 50"
  using scroll_loop_le[of in_view 550 50 0] by simp

text \<open>
  C8: in whatever round \<open>k\<close> the loader is, if the status element is not found, or is not
  in the viewport after any of at most 50 scrolls of 550 pixels, or the load-more
  button cannot be found or clicked, the loop returns (it raises nothing) after the
  \<open>k\<close> clicks made so far; the scroll loop makes at most 50 scrolls.
\<close>

theorem loader_halts_when_stuck:
  "((\<forall>i<k. (\<exists>t. scroll_until_element_visible (pages i) 550 50 = Some t \<and> \<not> all_displayed t) \<and>
            (\<exists>u. next_button (pages i) = Inr u)) \<longrightarrow>
      ((\<exists>e. status_lookup (pages k) = Inl e) \<longrightarrow>
         scroll_and_click_until_all_displayed pages 0 = Some (k, StatusNotVisible)) \<and>
      ((\<forall>c\<le>50. \<not> is_in_viewport (pages k) (550 * c)) \<longrightarrow>
         scroll_and_click_until_all_displayed pages 0 = Some (k, StatusNotVisible)) \<and>
      ((\<exists>t e. scroll_until_element_visible (pages k) 550 50 = Some t \<and> \<not> all_displayed t \<and>
            next_button (pages k) = Inl e) \<longrightarrow>
         scroll_and_click_until_all_displayed pages 0 = Some (k, ClickFailed))) \<and>
   scroll_loop in_view 550 50 0 \<le> 50"
  using loader_stuck_at[of k pages] scroll_loop_at_most_50 by blast

theorem loader_halts_when_stuck_witness:
  "status_lookup (status_missing 0) = Inl NoSuchElementException \<and>
   scroll_and_click_until_all_displayed status_missing 0 = Some (0, StatusNotVisible) \<and>
   \<not> is_in_viewport (status_hidden 0) (550 * 50) \<and>
   scroll_and_click_until_all_displayed status_hidden 0 = Some (0, StatusNotVisible) \<and>
   scroll_until_element_visible (button_missing 0) 550 50 = Some (of_ascii ''loading'') \<and>
   next_button (button_missing 0) = Inl NoSuchElementException \<and>
   scroll_and_click_until_all_displayed button_missing 0 = Some (0, ClickFailed)"
proof -
  have a: "status_lookup (status_missing 0) = Inl NoSuchElementException"
    by (simp add: status_missing_def)
  have b: "\<forall>c\<le>50. \<not> is_in_viewport (status_hidden 0) (550 * c)"
    by (simp add: status_hidden_def)
  have c: "scroll_until_element_visible (button_missing 0) 550 50 = Some (of_ascii ''loading'')"
    "next_button (button_missing 0) = Inl NoSuchElementException"
    by (simp_all add: scroll_until_element_visible_def button_missing_def Let_def)
  have d: "\<not> all_displayed (of_ascii ''loading'')"
    by (rule all_displayed_examples(2))
  have r1: "scroll_and_click_until_all_displayed status_missing 0 = Some (0, StatusNotVisible)"
    using loader_halts_when_stuck[of 0 status_missing] a by blast
  have r2: "scroll_and_click_until_all_displayed status_hidden 0 = Some (0, StatusNotVisible)"
    using loader_halts_when_stuck[of 0 status_hidden] b by blast
  have r3: "scroll_and_click_until_all_displayed button_missing 0 = Some (0, ClickFailed)"
    using loader_halts_when_stuck[of 0 button_missing] c d by blast
  show ?thesis
    using a b c r1 r2 r3 by blast
qed
end
